theory Spec2Isabelle
  imports Main "HOL-Library.Sublist"
begin

section \<open>Slinkity's Vite adapter (packages/slinkity/src/vite.cts)\<close>

text \<open>
  The development follows the source file from the bottom up: the head-injection
  plugin, the renderer-config merge, the props virtual module, the dev-server
  coordinator and the production build.

  JavaScript strings are modelled as \<open>string\<close>; a value that may be \<open>undefined\<close> is an
  \<open>option\<close>; a \<open>Map\<close> is a partial function; a \<open>Set\<close> is the list of its elements in
  insertion order, which is the order in which JavaScript iterates over it.
\<close>

subsection \<open>Head injection: \<open>slinkityInjectHeadPlugin\<close>\<close>

text \<open>
  The transform context of Vite's \<open>transformIndexHtml\<close> hook: \<open>path\<close> is always there,
  \<open>originalUrl\<close> is optional.
\<close>

record indexHtmlTransformContext =
  path :: string
  originalUrl :: "string option"

record pageInfo =
  inputPath :: string

record headGlobals =
  cssUrlsByInputPath :: "string \<rightharpoonup> string list"
  pageByRelOutputPath :: "string \<rightharpoonup> pageInfo"

record htmlTagDescriptor =
  tag :: string
  attrs :: "(string \<times> string) list"

text \<open>
  JavaScript truthiness of a \<open>string | undefined\<close>, as tested by \<open>if (ctx.originalUrl)\<close>
  and \<open>if (!inputPath)\<close>: \<open>undefined\<close> and the empty string are falsy.
\<close>

definition truthy :: "string option \<Rightarrow> bool" where
  "truthy v = (case v of None \<Rightarrow> False | Some s \<Rightarrow> s \<noteq> [])"

definition stylesheetLink :: "string \<Rightarrow> htmlTagDescriptor" where
  "stylesheetLink href =
     \<lparr>tag = ''link'', attrs = [(''rel'', ''stylesheet''), (''href'', href)]\<rparr>"

text \<open>The \<open>transform(html, ctx)\<close> hook, with the plugin's \<open>globals\<close> made explicit.\<close>

definition transform :: "headGlobals \<Rightarrow> string \<Rightarrow> indexHtmlTransformContext \<Rightarrow> htmlTagDescriptor list" where
  "transform globals html ctx =
     (let resolved =
            (if truthy (originalUrl ctx) then originalUrl ctx
             else map_option inputPath (pageByRelOutputPath globals (path ctx)))
      in case resolved of
           None \<Rightarrow> []
         | Some ip \<Rightarrow>
             if ip = [] then []
             else (case cssUrlsByInputPath globals ip of
                     None \<Rightarrow> []
                   | Some collectedCss \<Rightarrow> map stylesheetLink collectedCss))"

text \<open>
  The resolution policy and the injection as the specification words them: an original
  request URL that is present is the key, otherwise the page registered for the output
  path; one link per collected URL, nothing when the set is absent.
\<close>

definition spec_resolveInputPath :: "headGlobals \<Rightarrow> indexHtmlTransformContext \<Rightarrow> string option" where
  "spec_resolveInputPath globals ctx =
     (case originalUrl ctx of
        Some url \<Rightarrow> Some url
      | None \<Rightarrow> map_option inputPath (pageByRelOutputPath globals (path ctx)))"

definition spec_inject :: "headGlobals \<Rightarrow> string option \<Rightarrow> htmlTagDescriptor list" where
  "spec_inject globals key =
     (case key of
        None \<Rightarrow> []
      | Some ip \<Rightarrow>
          (case cssUrlsByInputPath globals ip of
             None \<Rightarrow> []
           | Some urls \<Rightarrow> map stylesheetLink urls))"

subsection \<open>Renderer configuration merge: \<open>mergeRendererConfigs\<close>\<close>

text \<open>
  A Vite configuration is a JavaScript object. Its values are scalars, arrays, nested
  objects and plugin objects; a plugin object is represented by its \<open>name\<close> field, its
  hooks being modelled on their own in this theory. An object is the list of its
  properties in insertion order.
\<close>

datatype config =
    Str string
  | Bool bool
  | Plugin string
  | Arr "config list"
  | Obj "(string \<times> config) list"

type_synonym configObject = "(string \<times> config) list"

text \<open>
  Modelled from the spec: \<open>vite.mergeConfig\<close> is a function of the host bundler and not
  of this repository. The specification gives its semantics as: object keys merge
  recursively, arrays concatenate rather than replace, later scalar values override
  earlier ones. \<open>mergeValue\<close> combines the existing value of a key with the overriding
  one, \<open>mergeConfig\<close> walks the properties of the overriding object.
\<close>

fun mergeValue :: "config \<Rightarrow> config \<Rightarrow> config"
  and mergeConfig :: "configObject \<Rightarrow> configObject \<Rightarrow> configObject" where
  "mergeValue (Obj existing) (Obj overriding) = Obj (mergeConfig existing overriding)"
| "mergeValue (Arr existing) (Arr overriding) = Arr (existing @ overriding)"
| "mergeValue existing overriding = overriding"
| "mergeConfig defaults [] = defaults"
| "mergeConfig defaults ((key, v) # overrides) =
     mergeConfig
       (case map_of defaults key of
          None \<Rightarrow> defaults @ [(key, v)]
        | Some existing \<Rightarrow> map (\<lambda>(k, e). if k = key then (k, mergeValue existing v) else (k, e)) defaults)
       overrides"

text \<open>
  A renderer may come without a \<open>viteConfig\<close> fragment; the user configuration may come
  without a \<open>renderers\<close> list (\<open>userConfig?.renderers ?? []\<close>). \<open>buildTempDir\<close> is used by
  the production build below and is the location the configured path denotes: the
  list of its components from the file-system root.
\<close>

record renderer =
  viteConfig :: "configObject option"

record userConfig =
  buildTempDir :: "string list"
  renderers :: "renderer list option"

text \<open>
  The \<open>for ... of\<close> loop of \<open>mergeRendererConfigs\<close>: the accumulator \<open>viteConfig\<close> is
  reassigned once per renderer, \<open>renderer.viteConfig ?? {}\<close> being merged onto it.
\<close>

fun mergeRenderers :: "configObject \<Rightarrow> renderer list \<Rightarrow> configObject" where
  "mergeRenderers acc [] = acc"
| "mergeRenderers acc (r # rs) =
     mergeRenderers (mergeConfig acc (case viteConfig r of None \<Rightarrow> [] | Some fragment \<Rightarrow> fragment)) rs"

definition mergeRendererConfigs :: "configObject \<Rightarrow> userConfig \<Rightarrow> configObject" where
  "mergeRendererConfigs base uc =
     mergeRenderers base (case renderers uc of None \<Rightarrow> [] | Some rs \<Rightarrow> rs)"

subsection \<open>Errors\<close>

text \<open>
  Every \<open>throw\<close> and every rejected promise of the source is a value of \<open>error\<close>; an
  operation that may fail returns \<open>error + 'a\<close>, with \<open>Inl\<close> the error.
\<close>

datatype errno = ENOENT | ENOTEMPTY | EINVAL | ENOTDIR

datatype error =
    OutputDirectoryEmpty
  | FilesystemError errno
  | BundlerError string
  | TypeError
  | SerializationError string

subsection \<open>Props virtual module: \<open>slinkityPropsPlugin\<close> and \<open>getPropsModContents\<close>\<close>

definition newline :: string where
  "newline = [CHR 0x0A]"

text \<open>
  \<open>JSON.stringify\<close> applied to a string: the string between double quotes, with the
  double quote, the backslash and the control characters below U+0020 escaped.
  A \<open>string\<close> holds the UTF-8 bytes of the JavaScript string, so that every byte from
  0x20 on, the two escaped ones apart, is copied.
\<close>

definition hexDigit :: "nat \<Rightarrow> char" where
  "hexDigit n = ''0123456789abcdef'' ! (n mod 16)"

definition jsonEscape :: "char \<Rightarrow> string" where
  "jsonEscape c =
     (if c = CHR 0x22 then [CHR 0x5C, CHR 0x22]
      else if c = CHR 0x5C then [CHR 0x5C, CHR 0x5C]
      else if c = CHR 0x08 then [CHR 0x5C, CHR ''b'']
      else if c = CHR 0x09 then [CHR 0x5C, CHR ''t'']
      else if c = CHR 0x0A then [CHR 0x5C, CHR ''n'']
      else if c = CHR 0x0C then [CHR 0x5C, CHR ''f'']
      else if c = CHR 0x0D then [CHR 0x5C, CHR ''r'']
      else if (of_char c :: nat) < 0x20
        then [CHR 0x5C, CHR ''u'', CHR ''0'', CHR ''0'',
              hexDigit (of_char c div 16), hexDigit (of_char c)]
      else [c])"

definition JSON_stringify :: "string \<Rightarrow> string" where
  "JSON_stringify s = CHR 0x22 # concat (map jsonEscape s) @ [CHR 0x22]"

text \<open>
  A prop of a page: \<open>getSerializedValue\<close> is a callback that returns source text or
  throws. \<open>clientPropIds\<close> is a \<open>Set\<close>, \<open>props\<close> a plain object indexed by prop id.
\<close>

record clientProp =
  name :: string
  getSerializedValue :: "unit \<Rightarrow> error + string"

record pageProps =
  hasStore :: bool
  props :: "string \<rightharpoonup> clientProp"
  clientPropIds :: "string list"

text \<open>
  The body of the \<open>for (const clientPropId of clientPropIds)\<close> loop appends one line to
  \<open>propsFileContents\<close>. Destructuring \<open>props[clientPropId]\<close> throws a \<open>TypeError\<close> when
  the object has no such property; an exception of the callback propagates.
\<close>

fun emitEntries :: "(string \<rightharpoonup> clientProp) \<Rightarrow> string list \<Rightarrow> string \<Rightarrow> error + string" where
  "emitEntries ps [] propsFileContents = Inr propsFileContents"
| "emitEntries ps (clientPropId # rest) propsFileContents =
     (case ps clientPropId of
        None \<Rightarrow> Inl TypeError
      | Some p \<Rightarrow>
          (case getSerializedValue p () of
             Inl e \<Rightarrow> Inl e
           | Inr v \<Rightarrow>
               let serializedKey = JSON_stringify clientPropId;
                   serializedEntry = ''{ name: '' @ JSON_stringify (name p) @ '', value: '' @ v @ '' }''
               in emitEntries ps rest
                    (propsFileContents @ ''  '' @ serializedKey @ '': '' @ serializedEntry @ '','' @ newline)))"

text \<open>
  \<open>readFile\<close> stands for \<open>fs.promises.readFile\<close>: the text of the file at a path, or an
  error. The runtime helper is read from the fixed path \<open>./utils/store.client.mjs\<close>.
\<close>

definition storeClientPath :: string where
  "storeClientPath = ''./utils/store.client.mjs''"

definition getPropsModContents ::
  "(string \<Rightarrow> error + string) \<Rightarrow> (string \<rightharpoonup> pageProps) \<Rightarrow> string \<Rightarrow> error + string" where
  "getPropsModContents readFile propsByInputPath inputPath' =
     (let propsFileContents = ''export default {'' @ newline
      in case propsByInputPath inputPath' of
           None \<Rightarrow> Inr propsFileContents
         | Some propInfo \<Rightarrow>
             if clientPropIds propInfo = [] then Inr propsFileContents
             else (case emitEntries (props propInfo) (clientPropIds propInfo) propsFileContents of
                     Inl e \<Rightarrow> Inl e
                   | Inr contents \<Rightarrow>
                       if hasStore propInfo
                       then (case readFile storeClientPath of
                               Inl e \<Rightarrow> Inl e
                             | Inr helper \<Rightarrow> Inr (contents @ ''}'' @ newline @ helper))
                       else Inr (contents @ ''}'')))"

text \<open>
  \<open>String.prototype.replace\<close> with a string pattern replaces the first occurrence.
\<close>

fun replaceFirst :: "string \<Rightarrow> string \<Rightarrow> string \<Rightarrow> string" where
  "replaceFirst pat rep [] = (if pat = [] then rep else [])"
| "replaceFirst pat rep (c # cs) =
     (if prefix pat (c # cs) then rep @ drop (length pat) (c # cs)
      else c # replaceFirst pat rep cs)"

definition virtualModuleId :: string where
  "virtualModuleId = ''slinkity:props:''"

definition resolvedVirtualModuleId :: string where
  "resolvedVirtualModuleId = CHR 0x00 # virtualModuleId"

text \<open>The two hooks of the plugin; \<open>None\<close> is the hook declining (returning nothing).\<close>

definition resolveId :: "string \<Rightarrow> string option" where
  "resolveId ident =
     (if prefix virtualModuleId ident
      then Some (replaceFirst virtualModuleId resolvedVirtualModuleId ident)
      else None)"

definition load ::
  "(string \<Rightarrow> error + string) \<Rightarrow> (string \<rightharpoonup> pageProps) \<Rightarrow> string \<Rightarrow> (error + string) option" where
  "load readFile propsByInputPath ident =
     (if prefix resolvedVirtualModuleId ident
      then Some (getPropsModContents readFile propsByInputPath
                   (replaceFirst resolvedVirtualModuleId [] ident))
      else None)"

text \<open>
  One entry of the export object as the specification words it: keyed by the
  JSON-stringified prop id, the name JSON-stringified, the serialized value verbatim.
\<close>

definition spec_entry :: "string \<Rightarrow> string \<Rightarrow> string \<Rightarrow> string" where
  "spec_entry propId propName rawValue =
     ''  '' @ JSON_stringify propId @ '': { name: '' @ JSON_stringify propName
       @ '', value: '' @ rawValue @ '' },'' @ newline"

subsection \<open>Dev-server coordinator: \<open>createViteServer\<close> and \<open>getOrInitialize\<close>\<close>

text \<open>
  A promise handed to a caller is pending, fulfilled with a server, or rejected.
  The closure state of \<open>createViteServer\<close> is \<open>viteServer\<close> (\<open>undefined\<close> at first) and
  \<open>awaitingServer\<close>, the array of \<open>resolve\<close> functions. A \<open>resolve\<close> function is
  represented by the index of the promise it settles in \<open>promises\<close>, the table of all
  promises returned so far. \<open>createServerCalls\<close> counts the calls of
  \<open>vite.createServer\<close>, \<open>creationsInFlight\<close> those whose promise has not settled yet.
\<close>

datatype 'srv promise = Pending | Fulfilled 'srv | Rejected error

record 'srv coordinator =
  viteServer :: "'srv option"
  awaitingServer :: "nat list"
  promises :: "'srv promise list"
  createServerCalls :: nat
  creationsInFlight :: nat

definition initial :: "'srv coordinator" where
  "initial = \<lparr>viteServer = None, awaitingServer = [], promises = [],
              createServerCalls = 0, creationsInFlight = 0\<rparr>"

text \<open>Calling a \<open>resolve\<close> function settles a pending promise and is ignored otherwise.\<close>

definition resolve :: "nat \<Rightarrow> 'srv \<Rightarrow> 'srv promise list \<Rightarrow> 'srv promise list" where
  "resolve p v ps = (if p < length ps \<and> ps ! p = Pending then ps[p := Fulfilled v] else ps)"

text \<open>
  \<open>getOrInitialize\<close> runs to its end without suspending: it returns the index of the
  promise it hands out and the new state. A server is an object and therefore truthy.
\<close>

definition getOrInitialize :: "'srv coordinator \<Rightarrow> nat \<times> 'srv coordinator" where
  "getOrInitialize st =
     (case viteServer st of
        Some srv \<Rightarrow> (length (promises st), st\<lparr>promises := promises st @ [Fulfilled srv]\<rparr>)
      | None \<Rightarrow>
          let st1 = (if length (awaitingServer st) = 0
                     then st\<lparr>createServerCalls := createServerCalls st + 1,
                             creationsInFlight := creationsInFlight st + 1\<rparr>
                     else st);
              p = length (promises st1)
          in (p, st1\<lparr>promises := promises st1 @ [Pending],
                     awaitingServer := awaitingServer st1 @ [p]\<rparr>))"

text \<open>
  The callback given to \<open>then\<close>: it stores the server, then the loop
  \<open>for (const resolve of awaitingServer) resolve(viteServer)\<close> runs.
\<close>

fun resolveAll :: "'srv \<Rightarrow> nat list \<Rightarrow> 'srv promise list \<Rightarrow> 'srv promise list" where
  "resolveAll srv [] ps = ps"
| "resolveAll srv (r # rs) ps = resolveAll srv rs (resolve r srv ps)"

definition onServerCreated :: "'srv \<Rightarrow> 'srv coordinator \<Rightarrow> 'srv coordinator" where
  "onServerCreated srv st =
     st\<lparr>viteServer := Some srv,
        promises := resolveAll srv (awaitingServer st) (promises st)\<rparr>"

text \<open>
  What can happen to a coordinator: a caller calls \<open>getOrInitialize\<close>, or the promise
  of a \<open>vite.createServer\<close> call in flight settles. A fulfilment runs the \<open>then\<close>
  callback; a rejection runs nothing, since no rejection handler is attached. A
  settlement with no creation in flight cannot happen and leaves the state as it is.
\<close>

datatype 'srv event = Call | CreateServerFulfilled 'srv | CreateServerRejected error

fun step :: "'srv coordinator \<Rightarrow> 'srv event \<Rightarrow> 'srv coordinator" where
  "step st Call = snd (getOrInitialize st)"
| "step st (CreateServerFulfilled srv) =
     (if 0 < creationsInFlight st
      then onServerCreated srv (st\<lparr>creationsInFlight := creationsInFlight st - 1\<rparr>)
      else st)"
| "step st (CreateServerRejected e) =
     (if 0 < creationsInFlight st
      then st\<lparr>creationsInFlight := creationsInFlight st - 1\<rparr>
      else st)"

fun run :: "'srv coordinator \<Rightarrow> 'srv event list \<Rightarrow> 'srv coordinator" where
  "run st [] = st"
| "run st (e # es) = run (step st e) es"

subsection \<open>Production build: \<open>productionBuild\<close>\<close>

text \<open>
  The file system is a table of entries. A location is the list of path components
  from the root, so that \<open>prefix d q\<close> says that \<open>q\<close> is \<open>d\<close> or lies below it.
  \<open>path.relative(".", buildTempDir)\<close> and \<open>path.resolve(output)\<close> rewrite a path without
  changing the location it denotes; the model works on the locations.

  The operations fail for the reasons the table can express: \<open>rename\<close> of a missing
  source, onto a directory that has entries, or of a directory into itself; \<open>rm\<close> of a
  missing path (it is called without \<open>force\<close>). Failures of the medium (permissions,
  input-output errors) are outside the model.
\<close>

datatype node = File string | Dir

type_synonym location = "string list"
type_synonym filesystem = "(location \<times> node) list"

definition fs_exists :: "filesystem \<Rightarrow> location \<Rightarrow> bool" where
  "fs_exists fs p = (p \<in> set (map fst fs))"

definition reroot :: "location \<Rightarrow> location \<Rightarrow> location \<times> node \<Rightarrow> location \<times> node" where
  "reroot src dst ent =
     (if prefix src (fst ent) then (dst @ drop (length src) (fst ent), snd ent) else ent)"

definition fs_rename :: "location \<Rightarrow> location \<Rightarrow> filesystem \<Rightarrow> errno + filesystem" where
  "fs_rename src dst fs =
     (if \<not> fs_exists fs src then Inl ENOENT
      else if src = dst then Inr fs
      else if prefix src dst then Inl EINVAL
      else if list_ex (\<lambda>ent. strict_prefix dst (fst ent)) fs then Inl ENOTEMPTY
      else Inr (map (reroot src dst) (filter (\<lambda>ent. fst ent \<noteq> dst) fs)))"

definition fs_rm :: "location \<Rightarrow> filesystem \<Rightarrow> errno + filesystem" where
  "fs_rm p fs =
     (if \<not> fs_exists fs p then Inl ENOENT
      else Inr (filter (\<lambda>ent. \<not> prefix p (fst ent)) fs))"

text \<open>
  \<open>globSync(`${dir}/**/*.html`, {absolute: true})\<close>: the files below \<open>dir\<close> whose name ends
  in \<open>.html\<close>. With the default options of fast-glob only files are returned and no
  component below \<open>dir\<close> may begin with a dot.
\<close>

definition hidden :: "string \<Rightarrow> bool" where
  "hidden component = prefix ''.'' component"

definition globHtml :: "location \<Rightarrow> filesystem \<Rightarrow> location list" where
  "globHtml dir fs =
     map fst
       (filter
          (\<lambda>ent. (case snd ent of File content \<Rightarrow> True | Dir \<Rightarrow> False)
                \<and> strict_prefix dir (fst ent)
                \<and> \<not> list_ex hidden (drop (length dir) (fst ent))
                \<and> suffix ''.html'' (last (fst ent)))
          fs)"

definition pathString :: "location \<Rightarrow> string" where
  "pathString p = concat (map (\<lambda>component. ''/'' @ component) p)"

record eleventyDir =
  "output" :: location

text \<open>The Vite configuration that \<open>productionBuild\<close> writes down before merging.\<close>

definition productionConfig :: "location \<Rightarrow> location \<Rightarrow> location list \<Rightarrow> configObject" where
  "productionConfig eleventyTempBuildDir resolvedOutput inputFiles =
     [(''root'', Str (pathString eleventyTempBuildDir)),
      (''mode'', Str ''production''),
      (''plugins'', Arr [Plugin ''slinkity-props-plugin'', Plugin ''vite-plugin-slinkity-inject-head'']),
      (''build'', Obj
         [(''minify'', Bool False),
          (''outDir'', Str (pathString resolvedOutput)),
          (''emptyOutDir'', Bool True),
          (''rollupOptions'', Obj [(''input'', Arr (map (\<lambda>f. Str (pathString f)) inputFiles))])])]"

text \<open>
  \<open>viteBuild\<close> stands for \<open>vite.build\<close>: given the configuration and the file system it
  returns normally or throws, and leaves a file system behind in both cases. It is a
  parameter, so that what is proved holds for whatever the bundler does.

  The result of \<open>productionBuild\<close> is what the caller sees (\<open>Inr ()\<close> for a normal return,
  \<open>Inl\<close> for the error thrown) together with the file system left behind. The
  \<open>finally\<close> block runs after the \<open>try\<close> block however that ended, and an error of its own
  replaces the outcome of the \<open>try\<close> block.
\<close>

definition tryBlock ::
  "(configObject \<Rightarrow> filesystem \<Rightarrow> (error + unit) \<times> filesystem) \<Rightarrow> userConfig \<Rightarrow> location \<Rightarrow> location
     \<Rightarrow> filesystem \<Rightarrow> (error + unit) \<times> filesystem" where
  "tryBlock viteBuild uc eleventyTempBuildDir resolvedOutput fs =
     (let inputFiles = globHtml eleventyTempBuildDir fs
      in if length inputFiles = 0 then (Inl OutputDirectoryEmpty, fs)
         else viteBuild
                (mergeRendererConfigs
                   (productionConfig eleventyTempBuildDir resolvedOutput inputFiles) uc)
                fs)"

definition productionBuild ::
  "(configObject \<Rightarrow> filesystem \<Rightarrow> (error + unit) \<times> filesystem) \<Rightarrow> userConfig \<Rightarrow> eleventyDir
     \<Rightarrow> filesystem \<Rightarrow> (error + unit) \<times> filesystem" where
  "productionBuild viteBuild uc eleventyConfigDir fs =
     (let eleventyTempBuildDir = buildTempDir uc;
          resolvedOutput = output eleventyConfigDir
      in case fs_rename resolvedOutput eleventyTempBuildDir fs of
           Inl e \<Rightarrow> (Inl (FilesystemError e), fs)
         | Inr fs1 \<Rightarrow>
             (case tryBlock viteBuild uc eleventyTempBuildDir resolvedOutput fs1 of
                (outcome, fs2) \<Rightarrow>
                  (case fs_rm eleventyTempBuildDir fs2 of
                     Inl e \<Rightarrow> (Inl (FilesystemError e), fs2)
                   | Inr fs3 \<Rightarrow> (outcome, fs3))))"

subsection \<open>Auxiliary definitions\<close>

text \<open>
  The export object as the specification words it, for a page whose props have the
  names \<open>nameOf\<close> and the serialized values \<open>rawOf\<close>.
\<close>

definition spec_exportObject :: "string list \<Rightarrow> (string \<Rightarrow> string) \<Rightarrow> (string \<Rightarrow> string) \<Rightarrow> string" where
  "spec_exportObject ids nameOf rawOf =
     ''export default {'' @ newline
       @ concat (map (\<lambda>propId. spec_entry propId (nameOf propId) (rawOf propId)) ids) @ ''}''"

text \<open>
  The invariant of the coordinator after \<open>k\<close> calls of \<open>getOrInitialize\<close>, and the state
  it is left in by a failed creation.
\<close>

fun isCall :: "'srv event \<Rightarrow> bool" where
  "isCall Call = True"
| "isCall (CreateServerFulfilled srv) = False"
| "isCall (CreateServerRejected e) = False"

definition calls :: "'srv event list \<Rightarrow> nat" where
  "calls evs = length (filter isCall evs)"

definition coordinator_inv :: "nat \<Rightarrow> 'srv coordinator \<Rightarrow> bool" where
  "coordinator_inv k st =
     (length (promises st) = k
      \<and> createServerCalls st = (if k = 0 then 0 else 1)
      \<and> creationsInFlight st \<le> createServerCalls st
      \<and> (case viteServer st of
            None \<Rightarrow> awaitingServer st = [0..<k] \<and> promises st = replicate k Pending
          | Some srv \<Rightarrow>
              promises st = replicate k (Fulfilled srv) \<and> creationsInFlight st = 0 \<and> 0 < k))"

definition stalled :: "'srv coordinator \<Rightarrow> bool" where
  "stalled st =
     (viteServer st = None \<and> creationsInFlight st = 0 \<and> awaitingServer st \<noteq> []
      \<and> list_all (\<lambda>p. p = Pending) (promises st))"

subsection \<open>Example inputs\<close>

definition exGlobals :: headGlobals where
  "exGlobals =
     \<lparr>cssUrlsByInputPath = [''/blog/post/'' \<mapsto> [''/blog/post/index.css'', ''/base.css'']],
      pageByRelOutputPath = [''blog/post/index.html'' \<mapsto> \<lparr>inputPath = ''/blog/post/''\<rparr>]\<rparr>"

definition quoted :: "string \<Rightarrow> string" where
  "quoted s = CHR 0x22 # s @ [CHR 0x22]"

definition exProps :: "string \<rightharpoonup> clientProp" where
  "exProps =
     [''a'' \<mapsto> \<lparr>name = ''title'', getSerializedValue = (\<lambda>u. Inr ''42'')\<rparr>,
      ''b'' \<mapsto> \<lparr>name = ''when'', getSerializedValue = (\<lambda>u. Inr ''new Date(0)'')\<rparr>]"

definition exName :: "string \<Rightarrow> string" where
  "exName propId = (if propId = ''a'' then ''title'' else ''when'')"

definition exRaw :: "string \<Rightarrow> string" where
  "exRaw propId = (if propId = ''a'' then ''42'' else ''new Date(0)'')"

definition exPage :: pageProps where
  "exPage = \<lparr>hasStore = False, props = exProps, clientPropIds = [''a'', ''b'']\<rparr>"

definition exStorePage :: pageProps where
  "exStorePage = \<lparr>hasStore = True, props = exProps, clientPropIds = [''b'']\<rparr>"

definition storeOnlyPage :: pageProps where
  "storeOnlyPage = \<lparr>hasStore = True, props = exProps, clientPropIds = []\<rparr>"

definition helperAsset :: "string \<Rightarrow> error + string" where
  "helperAsset p =
     (if p = ''./utils/store.client.mjs'' then Inr ''export const store = 1;''
      else Inl (FilesystemError ENOENT))"

definition twoCalls :: "nat event list" where
  "twoCalls = [Call, Call]"

definition site :: filesystem where
  "site = [([''site''], Dir), ([''site'', ''_site''], Dir),
           ([''site'', ''_site'', ''index.html''], File ''<html>''),
           ([''site'', ''_site'', ''about''], Dir),
           ([''site'', ''_site'', ''about'', ''index.html''], File ''<html>'')]"

definition siteMoved :: filesystem where
  "siteMoved = [([''site''], Dir), ([''site'', ''.eleventy-temp-build''], Dir),
                ([''site'', ''.eleventy-temp-build'', ''index.html''], File ''<html>''),
                ([''site'', ''.eleventy-temp-build'', ''about''], Dir),
                ([''site'', ''.eleventy-temp-build'', ''about'', ''index.html''], File ''<html>'')]"

definition assetsOnly :: filesystem where
  "assetsOnly = [([''site''], Dir), ([''site'', ''_site''], Dir),
                 ([''site'', ''_site'', ''main.css''], File ''body {}'')]"

definition assetsMoved :: filesystem where
  "assetsMoved = [([''site''], Dir), ([''site'', ''.eleventy-temp-build''], Dir),
                  ([''site'', ''.eleventy-temp-build'', ''main.css''], File ''body {}'')]"

definition exConfig :: userConfig where
  "exConfig = \<lparr>buildTempDir = [''site'', ''.eleventy-temp-build''], renderers = None\<rparr>"

definition exDir :: eleventyDir where
  "exDir = \<lparr>output = [''site'', ''_site'']\<rparr>"

definition bundlerWrites :: "configObject \<Rightarrow> filesystem \<Rightarrow> (error + unit) \<times> filesystem" where
  "bundlerWrites cfg fs =
     (Inr (), fs @ [([''site'', ''_site''], Dir),
                    ([''site'', ''_site'', ''index.html''], File ''bundled'')])"

definition bundlerFails :: "configObject \<Rightarrow> filesystem \<Rightarrow> (error + unit) \<times> filesystem" where
  "bundlerFails cfg fs = (Inl (BundlerError ''parse error''), fs)"

section \<open>Properties\<close>

subsection \<open>Head injection\<close>

lemma truthy_Some [simp]: "truthy (Some s) = (s \<noteq> [])"
  by (simp add: truthy_def)

lemma truthy_None [simp]: "truthy None = False"
  by (simp add: truthy_def)

text \<open>
  Claim C10. Two invocations of the transform hook with the same context and the same
  \<open>CssUrls\<close> and \<open>PageByOutputPath\<close> maps return the same tag list whatever the two html
  documents are: the result does not depend on the html argument, and the hook returns
  tag descriptors only, never a document.
\<close>

theorem transform_ignores_html:
  "transform globals html1 ctx = transform globals html2 ctx"
  by (simp add: transform_def)

theorem transform_ignores_html_witness:
  "transform exGlobals ''<html><head></head></html>'' \<lparr>path = ''blog/post/index.html'', originalUrl = None\<rparr>
     = transform exGlobals ''<p>another document</p>'' \<lparr>path = ''blog/post/index.html'', originalUrl = None\<rparr>"
  by (rule transform_ignores_html)

text \<open>
  Claim C8, as stated, fails where JavaScript truthiness matters: a context that
  carries the empty string as original request URL is handled by the production branch,
  so the page registered for the output path is used and not the empty key.
\<close>

theorem transform_empty_url_counterexample:
  "transform exGlobals ''<html></html>'' \<lparr>path = ''blog/post/index.html'', originalUrl = Some ''''\<rparr>
     = [stylesheetLink ''/blog/post/index.css'', stylesheetLink ''/base.css'']
   \<and> spec_inject exGlobals
         (spec_resolveInputPath exGlobals \<lparr>path = ''blog/post/index.html'', originalUrl = Some ''''\<rparr>)
     = []"
  by (simp add: exGlobals_def transform_def spec_inject_def spec_resolveInputPath_def)

text \<open>
  Claim C8, amended. For every invocation whose original request URL, when present, is
  not the empty string and whose page input path, when the output path is looked up, is
  not the empty string: a present original request URL is the input-path key; otherwise
  the output-relative path is looked up in \<open>PageByOutputPath\<close>, an absent entry
  contributing nothing; and with an input path resolved the hook emits one stylesheet
  link per URL of \<open>CssUrls[inputPath]\<close>, in the iteration order of the set, and nothing
  when the set is absent or empty.
\<close>

theorem transform_follows_policy:
  assumes url: "originalUrl ctx \<noteq> Some []"
    and page: "originalUrl ctx = None \<Longrightarrow>
                 map_option inputPath (pageByRelOutputPath globals (path ctx)) \<noteq> Some []"
  shows "transform globals html ctx = spec_inject globals (spec_resolveInputPath globals ctx)"
proof (cases "originalUrl ctx")
  case None
  show ?thesis
  proof (cases "pageByRelOutputPath globals (path ctx)")
    case noPage: None
    with None show ?thesis
      by (simp add: transform_def spec_inject_def spec_resolveInputPath_def)
  next
    case (Some pg)
    with None page have "inputPath pg \<noteq> []" by simp
    with None Some show ?thesis
      by (simp add: transform_def spec_inject_def spec_resolveInputPath_def)
  qed
next
  case (Some u)
  with url have "u \<noteq> []" by simp
  with Some show ?thesis
    by (simp add: transform_def spec_inject_def spec_resolveInputPath_def)
qed

theorem transform_follows_policy_witness:
  "transform exGlobals ''<html></html>'' \<lparr>path = ''blog/post/index.html'', originalUrl = None\<rparr>
     = [stylesheetLink ''/blog/post/index.css'', stylesheetLink ''/base.css'']
   \<and> transform exGlobals ''<html></html>'' \<lparr>path = ''/index.html'', originalUrl = Some ''/blog/post/''\<rparr>
     = [stylesheetLink ''/blog/post/index.css'', stylesheetLink ''/base.css'']
   \<and> transform exGlobals ''<html></html>'' \<lparr>path = ''other.html'', originalUrl = None\<rparr> = []"
  using
    transform_follows_policy
      [of "\<lparr>path = ''blog/post/index.html'', originalUrl = None\<rparr>" exGlobals "''<html></html>''"]
    transform_follows_policy
      [of "\<lparr>path = ''/index.html'', originalUrl = Some ''/blog/post/''\<rparr>" exGlobals "''<html></html>''"]
    transform_follows_policy
      [of "\<lparr>path = ''other.html'', originalUrl = None\<rparr>" exGlobals "''<html></html>''"]
  by (simp add: exGlobals_def spec_inject_def spec_resolveInputPath_def)

subsection \<open>Renderer configuration merge\<close>

lemma mergeRenderers_foldl:
  "mergeRenderers acc rs = foldl mergeConfig acc (List.map_filter viteConfig rs)"
proof (induction rs arbitrary: acc)
  case Nil
  show ?case by (simp add: List.map_filter_simps)
next
  case (Cons r rs)
  show ?case
  proof (cases "viteConfig r")
    case None
    then show ?thesis using Cons.IH [of acc] by (simp add: List.map_filter_simps)
  next
    case (Some fragment)
    then show ?thesis using Cons.IH [of "mergeConfig acc fragment"]
      by (simp add: List.map_filter_simps)
  qed
qed

text \<open>
  Claim C9. The merge is a left fold of \<open>mergeConfig\<close> from the base configuration over
  the fragments of the renderers in registration order; a renderer without a fragment
  does not take part in the fold, so it leaves the accumulator as it is. Arrays
  concatenate: base plugins \<open>[P]\<close> with the fragments \<open>{plugins: [Q]}\<close> and
  \<open>{plugins: [R]}\<close>, a renderer without fragment between them, give \<open>[P, Q, R]\<close>.
\<close>

theorem mergeRendererConfigs_left_fold:
  "mergeRendererConfigs base uc
     = foldl mergeConfig base
         (List.map_filter viteConfig (case renderers uc of None \<Rightarrow> [] | Some rs \<Rightarrow> rs))
   \<and> mergeRendererConfigs [(''plugins'', Arr [P])]
         \<lparr>buildTempDir = d,
          renderers = Some [\<lparr>viteConfig = Some [(''plugins'', Arr [Q])]\<rparr>,
                            \<lparr>viteConfig = None\<rparr>,
                            \<lparr>viteConfig = Some [(''plugins'', Arr [R])]\<rparr>]\<rparr>
       = [(''plugins'', Arr [P, Q, R])]"
  by (simp add: mergeRendererConfigs_def mergeRenderers_foldl List.map_filter_simps)

theorem mergeRendererConfigs_left_fold_witness:
  "mergeRendererConfigs [(''plugins'', Arr [Plugin ''P''])]
         \<lparr>buildTempDir = [],
          renderers = Some [\<lparr>viteConfig = Some [(''plugins'', Arr [Plugin ''Q''])]\<rparr>,
                            \<lparr>viteConfig = None\<rparr>,
                            \<lparr>viteConfig = Some [(''plugins'', Arr [Plugin ''R''])]\<rparr>]\<rparr>
       = [(''plugins'', Arr [Plugin ''P'', Plugin ''Q'', Plugin ''R''])]"
  using mergeRendererConfigs_left_fold [of "[]" "\<lparr>buildTempDir = [], renderers = None\<rparr>"
      "Plugin ''P''" "[]" "Plugin ''Q''" "Plugin ''R''"]
  by simp

subsection \<open>Props virtual module\<close>

lemma emitEntries_closed_form:
  assumes "\<forall>propId \<in> set ids. \<exists>p. ps propId = Some p \<and> name p = nameOf propId
             \<and> getSerializedValue p () = Inr (rawOf propId)"
  shows "emitEntries ps ids acc
           = Inr (acc @ concat (map (\<lambda>propId. spec_entry propId (nameOf propId) (rawOf propId)) ids))"
  using assms
proof (induction ids arbitrary: acc)
  case Nil
  show ?case by simp
next
  case (Cons propId rest)
  from Cons.prems obtain p where p: "ps propId = Some p" "name p = nameOf propId"
    "getSerializedValue p () = Inr (rawOf propId)"
    by auto
  from Cons.prems have rest: "\<forall>i \<in> set rest. \<exists>p. ps i = Some p \<and> name p = nameOf i
             \<and> getSerializedValue p () = Inr (rawOf i)"
    by simp
  show ?case
    using p Cons.IH [OF rest] by (simp add: spec_entry_def)
qed

text \<open>
  Claim C5. For a page with a non-empty \<open>clientPropIds\<close> set whose props are all there and
  serialize, the generated module holds one entry per client prop id, in the insertion
  order of the set, each keyed by the JSON-stringified id, with the JSON-stringified
  name and the serialized value verbatim; the text is this function of the entry (and of
  the helper text when \<open>hasStore\<close> is set).
\<close>

theorem getPropsModContents_entries:
  assumes "propsByInputPath ip = Some info"
    and "clientPropIds info \<noteq> []"
    and "\<forall>propId \<in> set (clientPropIds info). \<exists>p. props info propId = Some p
           \<and> name p = nameOf propId \<and> getSerializedValue p () = Inr (rawOf propId)"
  shows "getPropsModContents readFile propsByInputPath ip =
           (if hasStore info
            then (case readFile storeClientPath of
                    Inl e \<Rightarrow> Inl e
                  | Inr helper \<Rightarrow>
                      Inr (spec_exportObject (clientPropIds info) nameOf rawOf @ newline @ helper))
            else Inr (spec_exportObject (clientPropIds info) nameOf rawOf))"
  using assms(1,2) emitEntries_closed_form [OF assms(3), of "''export default {'' @ newline"]
  by (simp add: getPropsModContents_def spec_exportObject_def split: sum.splits)

theorem getPropsModContents_entries_witness:
  "getPropsModContents helperAsset [''/p.md'' \<mapsto> exPage] ''/p.md''
     = Inr (''export default {\<newline>  '' @ quoted ''a'' @ '': { name: '' @ quoted ''title''
            @ '', value: 42 },\<newline>  '' @ quoted ''b'' @ '': { name: '' @ quoted ''when''
            @ '', value: new Date(0) },\<newline>}'')"
proof -
  have entry: "[''/p.md'' \<mapsto> exPage] ''/p.md'' = Some exPage"
    by simp
  have ids: "clientPropIds exPage \<noteq> []"
    by (simp add: exPage_def)
  have all: "\<forall>propId \<in> set (clientPropIds exPage). \<exists>p. props exPage propId = Some p
           \<and> name p = exName propId \<and> getSerializedValue p () = Inr (exRaw propId)"
    by (simp add: exPage_def exProps_def exName_def exRaw_def)
  have expected: "spec_exportObject (clientPropIds exPage) exName exRaw
     = ''export default {\<newline>  '' @ quoted ''a'' @ '': { name: '' @ quoted ''title''
            @ '', value: 42 },\<newline>  '' @ quoted ''b'' @ '': { name: '' @ quoted ''when''
            @ '', value: new Date(0) },\<newline>}''"
    by code_simp
  have "\<not> hasStore exPage"
    by (simp add: exPage_def)
  with getPropsModContents_entries
      [where propsByInputPath = "[''/p.md'' \<mapsto> exPage]" and ip = "''/p.md''" and info = exPage
         and readFile = helperAsset, OF entry ids all] expected
  show ?thesis by simp
qed

text \<open>
  Claim C6 does not hold of the code: the closing brace is appended inside the branch
  for a non-empty \<open>clientPropIds\<close> set only. For an input path without entry, and for an
  entry without client prop ids, the \<open>load\<close> hook returns the opening line of the export
  and nothing else: a text without closing brace.
\<close>

theorem load_without_client_props:
  "load readFile Map.empty (resolvedVirtualModuleId @ ''/about.md'')
     = Some (Inr ''export default {\<newline>'')
   \<and> load readFile [''/about.md'' \<mapsto> \<lparr>hasStore = False, props = Map.empty, clientPropIds = []\<rparr>]
         (resolvedVirtualModuleId @ ''/about.md'')
     = Some (Inr ''export default {\<newline>'')
   \<and> CHR ''}'' \<notin> set ''export default {\<newline>''"
  by (simp add: load_def getPropsModContents_def resolvedVirtualModuleId_def virtualModuleId_def
      newline_def)

text \<open>
  Claim C7, as stated, fails for an entry with \<open>hasStore\<close> set and no client prop ids: the
  helper is read and appended inside the branch for a non-empty set only.
\<close>

theorem getPropsModContents_store_counterexample:
  "hasStore storeOnlyPage
   \<and> getPropsModContents helperAsset [''/p.md'' \<mapsto> storeOnlyPage] ''/p.md''
       = Inr ''export default {\<newline>''
   \<and> \<not> suffix ''export const store = 1;'' ''export default {\<newline>''"
  by code_simp

text \<open>
  Claim C7, amended. For every entry with \<open>hasStore\<close> set and a non-empty \<open>clientPropIds\<close>
  set, the module text is the export object, a line break and the full text of the
  runtime-helper file, so it ends with that text; for every entry with \<open>hasStore\<close> not
  set the helper file plays no part in the result and, the set being non-empty, the
  text ends with the closing brace of the export object.
\<close>

theorem getPropsModContents_store:
  assumes "propsByInputPath ip = Some info"
  shows "(hasStore info \<and> clientPropIds info \<noteq> []
            \<and> emitEntries (props info) (clientPropIds info) (''export default {'' @ newline) = Inr contents
            \<and> readFile storeClientPath = Inr helper
          \<longrightarrow> getPropsModContents readFile propsByInputPath ip
                = Inr ((contents @ ''}'') @ newline @ helper))
       \<and> (\<not> hasStore info
          \<longrightarrow> getPropsModContents readFile propsByInputPath ip
                = getPropsModContents otherFile propsByInputPath ip
              \<and> (clientPropIds info \<noteq> []
                   \<and> emitEntries (props info) (clientPropIds info) (''export default {'' @ newline) = Inr contents
                 \<longrightarrow> getPropsModContents readFile propsByInputPath ip = Inr (contents @ ''}'')))"
  using assms by (auto simp: getPropsModContents_def Let_def split: sum.splits)

theorem getPropsModContents_store_witness:
  "getPropsModContents helperAsset [''/p.md'' \<mapsto> exStorePage] ''/p.md''
     = Inr (''export default {\<newline>  '' @ quoted ''b'' @ '': { name: '' @ quoted ''when''
            @ '', value: new Date(0) },\<newline>}\<newline>export const store = 1;'')
   \<and> getPropsModContents helperAsset [''/p.md'' \<mapsto> exPage] ''/p.md''
     = getPropsModContents (\<lambda>p. Inr ''another helper'') [''/p.md'' \<mapsto> exPage] ''/p.md''"
proof -
  have entry: "[''/p.md'' \<mapsto> exStorePage] ''/p.md'' = Some exStorePage"
    by simp
  have store: "hasStore exStorePage" "clientPropIds exStorePage \<noteq> []"
    by (simp_all add: exStorePage_def)
  have body: "emitEntries (props exStorePage) (clientPropIds exStorePage) (''export default {'' @ newline)
     = Inr (''export default {\<newline>  '' @ quoted ''b'' @ '': { name: '' @ quoted ''when''
            @ '', value: new Date(0) },\<newline>'')"
    by code_simp
  have helper: "helperAsset storeClientPath = Inr ''export const store = 1;''"
    by code_simp
  have entry': "[''/p.md'' \<mapsto> exPage] ''/p.md'' = Some exPage"
    by simp
  have plain: "\<not> hasStore exPage"
    by (simp add: exPage_def)
  from getPropsModContents_store
      [where propsByInputPath = "[''/p.md'' \<mapsto> exStorePage]" and ip = "''/p.md''"
         and info = exStorePage and readFile = helperAsset, OF entry] store body helper
  have "getPropsModContents helperAsset [''/p.md'' \<mapsto> exStorePage] ''/p.md''
     = Inr (''export default {\<newline>  '' @ quoted ''b'' @ '': { name: '' @ quoted ''when''
            @ '', value: new Date(0) },\<newline>}\<newline>export const store = 1;'')"
    by (simp add: newline_def)
  moreover from getPropsModContents_store
      [where propsByInputPath = "[''/p.md'' \<mapsto> exPage]" and ip = "''/p.md''" and info = exPage
         and readFile = helperAsset and otherFile = "\<lambda>p. Inr ''another helper''", OF entry'] plain
  have "getPropsModContents helperAsset [''/p.md'' \<mapsto> exPage] ''/p.md''
     = getPropsModContents (\<lambda>p. Inr ''another helper'') [''/p.md'' \<mapsto> exPage] ''/p.md''"
    by simp
  ultimately show ?thesis by simp
qed

subsection \<open>Dev-server coordinator\<close>

lemma resolve_length [simp]: "length (resolve r srv ps) = length ps"
  by (simp add: resolve_def)

lemma resolve_nth:
  "i < length ps \<Longrightarrow>
     resolve r srv ps ! i = (if i = r \<and> ps ! i = Pending then Fulfilled srv else ps ! i)"
  by (auto simp: resolve_def nth_list_update)

lemma resolveAll_length [simp]: "length (resolveAll srv rs ps) = length ps"
  by (induction rs arbitrary: ps) simp_all

lemma resolveAll_nth:
  "i < length ps \<Longrightarrow>
     resolveAll srv rs ps ! i = (if i \<in> set rs \<and> ps ! i = Pending then Fulfilled srv else ps ! i)"
proof (induction rs arbitrary: ps)
  case Nil
  show ?case by simp
next
  case (Cons r rs)
  have "resolveAll srv (r # rs) ps ! i = resolveAll srv rs (resolve r srv ps) ! i"
    by simp
  also have "\<dots> = (if i \<in> set rs \<and> resolve r srv ps ! i = Pending then Fulfilled srv
                    else resolve r srv ps ! i)"
    using Cons.prems by (intro Cons.IH) simp
  also have "\<dots> = (if i \<in> set (r # rs) \<and> ps ! i = Pending then Fulfilled srv else ps ! i)"
    using Cons.prems by (simp add: resolve_nth)
  finally show ?case .
qed

lemma resolveAll_queue:
  "resolveAll srv [0..<k] (replicate k Pending) = replicate k (Fulfilled srv)"
  by (rule nth_equalityI) (simp_all add: resolveAll_nth)

lemma inv_initial: "coordinator_inv 0 initial"
  by (simp add: coordinator_inv_def initial_def)

lemma inv_step:
  assumes "coordinator_inv k st"
  shows "coordinator_inv (if isCall ev then Suc k else k) (step st ev)"
proof (cases ev)
  case Call
  show ?thesis
  proof (cases "viteServer st")
    case None
    with assms Call show ?thesis
      by (cases "k = 0")
        (simp_all add: coordinator_inv_def getOrInitialize_def Let_def replicate_append_same)
  next
    case (Some srv)
    with assms Call show ?thesis
      by (simp add: coordinator_inv_def getOrInitialize_def replicate_append_same)
  qed
next
  case (CreateServerFulfilled srv)
  show ?thesis
  proof (cases "0 < creationsInFlight st")
    case True
    with assms have "viteServer st = None" "0 < k" "creationsInFlight st = 1"
      by (auto simp: coordinator_inv_def split: option.splits if_splits)
    with assms CreateServerFulfilled show ?thesis
      by (simp add: coordinator_inv_def onServerCreated_def resolveAll_queue)
  next
    case False
    with assms CreateServerFulfilled show ?thesis by simp
  qed
next
  case (CreateServerRejected e)
  with assms show ?thesis
    by (auto simp: coordinator_inv_def split: option.splits)
qed

lemma inv_run:
  "coordinator_inv k st \<Longrightarrow> coordinator_inv (k + calls evs) (run st evs)"
proof (induction evs arbitrary: k st)
  case Nil
  then show ?case by (simp add: calls_def)
next
  case (Cons ev evs)
  from inv_step [OF Cons.prems, of ev]
  have "coordinator_inv ((if isCall ev then Suc k else k) + calls evs) (run (step st ev) evs)"
    by (rule Cons.IH)
  then show ?case by (cases "isCall ev") (simp_all add: calls_def)
qed

lemma run_append: "run st (xs @ ys) = run (run st xs) ys"
  by (induction xs arbitrary: st) simp_all

lemma calls_zero_iff: "calls evs = 0 \<longleftrightarrow> Call \<notin> set evs"
proof (induction evs)
  case Nil
  show ?case by (simp add: calls_def)
next
  case (Cons ev evs)
  then show ?case by (cases ev) (simp_all add: calls_def)
qed

lemma calls_replicate [simp]: "calls (replicate n Call) = n"
  by (induction n) (simp_all add: calls_def)

lemma waiting_calls:
  "viteServer st = None \<Longrightarrow> awaitingServer st \<noteq> [] \<Longrightarrow>
     viteServer (run st (replicate n Call)) = None
     \<and> creationsInFlight (run st (replicate n Call)) = creationsInFlight st"
proof (induction n arbitrary: st)
  case 0
  then show ?case by simp
next
  case (Suc n)
  have "viteServer (step st Call) = None" "awaitingServer (step st Call) \<noteq> []"
    "creationsInFlight (step st Call) = creationsInFlight st"
    using Suc.prems by (simp_all add: getOrInitialize_def Let_def)
  with Suc.IH [of "step st Call"] show ?case by simp
qed

lemma waiting_after_calls:
  "viteServer (run (initial :: 'a coordinator) (replicate (Suc n) Call)) = None
   \<and> creationsInFlight (run (initial :: 'a coordinator) (replicate (Suc n) Call)) = 1"
proof -
  let ?st = "step (initial :: 'a coordinator) Call"
  have first: "viteServer ?st = None" "awaitingServer ?st \<noteq> []" "creationsInFlight ?st = 1"
    by (simp_all add: initial_def getOrInitialize_def Let_def)
  have unfold: "run initial (replicate (Suc n) Call) = run ?st (replicate n Call)"
    by simp
  from waiting_calls [OF first(1,2), of n] first(3) show ?thesis
    unfolding unfold by simp
qed

lemma ready_calls:
  "viteServer st = Some srv \<Longrightarrow> viteServer (run st (replicate m Call)) = Some srv"
  by (induction m arbitrary: st) (simp_all add: getOrInitialize_def)

text \<open>
  Claim C1. Whatever the calls and settlements of a coordinator's lifetime are, as soon
  as one call of \<open>getOrInitialize\<close> has been made exactly one \<open>createServer\<close> call has been
  issued, and all promises settled so far hold the cached instance. For every number
  \<open>N > 0\<close> of calls made before the creation completes and every number \<open>M\<close> of calls made
  after it, all \<open>N + M\<close> promises are fulfilled with the one server created.
\<close>

theorem getOrInitialize_single_flight:
  fixes srv :: 'srv and evs :: "'srv event list"
  shows "createServerCalls (run initial evs) = (if Call \<in> set evs then 1 else 0)
   \<and> (case viteServer (run initial evs) of
         None \<Rightarrow> list_all (\<lambda>p. p = Pending) (promises (run initial evs))
       | Some cached \<Rightarrow> list_all (\<lambda>p. p = Fulfilled cached) (promises (run initial evs)))
   \<and> (0 < N \<longrightarrow>
        promises (run initial (replicate N Call @ CreateServerFulfilled srv # replicate M Call))
          = replicate (N + M) (Fulfilled srv))"
proof (intro conjI)
  from inv_run [OF inv_initial, of evs]
  show "createServerCalls (run initial evs) = (if Call \<in> set evs then 1 else 0)"
    using calls_zero_iff [of evs] by (simp add: coordinator_inv_def)
next
  from inv_run [OF inv_initial, of evs]
  show "case viteServer (run initial evs) of
         None \<Rightarrow> list_all (\<lambda>p. p = Pending) (promises (run initial evs))
       | Some cached \<Rightarrow> list_all (\<lambda>p. p = Fulfilled cached) (promises (run initial evs))"
    by (simp add: coordinator_inv_def list_all_iff split: option.splits)
next
  show "0 < N \<longrightarrow>
        promises (run initial (replicate N Call @ CreateServerFulfilled srv # replicate M Call))
          = replicate (N + M) (Fulfilled srv)"
  proof
    assume "0 < N"
    then obtain n where N: "N = Suc n" by (cases N) simp_all
    let ?pre = "run (initial :: 'srv coordinator) (replicate N Call)"
    let ?trace = "replicate N Call @ CreateServerFulfilled srv # replicate M Call"
    have pre: "viteServer ?pre = None" "creationsInFlight ?pre = 1"
      unfolding N using waiting_after_calls [of n] by blast+
    have "viteServer (step ?pre (CreateServerFulfilled srv)) = Some srv"
      using pre by (simp add: onServerCreated_def)
    then have "viteServer (run initial ?trace) = Some srv"
      by (simp add: run_append ready_calls)
    moreover have "coordinator_inv (N + M) (run initial ?trace)"
      using inv_run [OF inv_initial, of ?trace] by (simp add: calls_def)
    ultimately show "promises (run initial ?trace) = replicate (N + M) (Fulfilled srv)"
      by (simp add: coordinator_inv_def)
  qed
qed

theorem getOrInitialize_single_flight_witness:
  "createServerCalls (run initial [Call, Call, Call, CreateServerFulfilled (7::nat), Call]) = 1
   \<and> promises (run initial [Call, Call, Call, CreateServerFulfilled (7::nat), Call])
       = [Fulfilled 7, Fulfilled 7, Fulfilled 7, Fulfilled 7]"
  using getOrInitialize_single_flight
    [of "[Call, Call, Call, CreateServerFulfilled (7::nat), Call]" 3 7 1]
  by (simp add: numeral_3_eq_3)

lemma stalled_step:
  "stalled st \<Longrightarrow> stalled (step st ev) \<and> createServerCalls (step st ev) = createServerCalls st"
  by (cases ev) (simp_all add: stalled_def getOrInitialize_def Let_def)

lemma stalled_run:
  "stalled st \<Longrightarrow> stalled (run st evs) \<and> createServerCalls (run st evs) = createServerCalls st"
proof (induction evs arbitrary: st)
  case Nil
  then show ?case by simp
next
  case (Cons ev evs)
  from stalled_step [OF Cons.prems, of ev] Cons.IH [of "step st ev"]
  show ?case by simp
qed

lemma promises_grow_step: "length (promises st) \<le> length (promises (step st ev))"
  by (cases ev)
    (simp_all add: getOrInitialize_def onServerCreated_def Let_def split: option.splits)

lemma promises_grow: "length (promises st) \<le> length (promises (run st evs))"
proof (induction evs arbitrary: st)
  case Nil
  show ?case by simp
next
  case (Cons ev evs)
  from promises_grow_step [of st ev] Cons.IH [of "step st ev"]
  show ?case by simp
qed

text \<open>
  Claim C4. If the promise of the \<open>createServer\<close> call rejects while the creation is in
  flight, then whatever happens afterwards every promise handed out before the failure
  (each of them queued in \<open>awaitingServer\<close>) stays pending: it is never fulfilled and
  never rejected. No second creation is started, so the promises of later callers stay
  pending as well.
\<close>

theorem failed_creation_stalls_callers:
  fixes pre post :: "'srv event list"
  assumes inFlight: "0 < creationsInFlight (run initial pre)"
  shows "awaitingServer (run initial pre) = [0..<length (promises (run initial pre))]
       \<and> 0 < length (promises (run initial pre))
       \<and> length (promises (run initial pre))
            \<le> length (promises (run initial (pre @ CreateServerRejected e # post)))
       \<and> list_all (\<lambda>p. p = Pending) (promises (run initial (pre @ CreateServerRejected e # post)))
       \<and> createServerCalls (run initial (pre @ CreateServerRejected e # post)) = 1"
proof -
  let ?st = "run (initial :: 'srv coordinator) pre"
  let ?failed = "step ?st (CreateServerRejected e)"
  have inv: "coordinator_inv (calls pre) ?st"
    using inv_run [OF inv_initial, of pre] by simp
  with inFlight have st: "viteServer ?st = None" "0 < calls pre" "creationsInFlight ?st = 1"
    "createServerCalls ?st = 1" "awaitingServer ?st = [0..<calls pre]"
    "promises ?st = replicate (calls pre) Pending" "length (promises ?st) = calls pre"
    by (auto simp: coordinator_inv_def split: option.splits if_splits)
  then have "stalled ?failed" "createServerCalls ?failed = 1"
    by (simp_all add: stalled_def list_all_iff)
  with stalled_run [of ?failed post]
  have "stalled (run ?failed post)" "createServerCalls (run ?failed post) = 1"
    by simp_all
  moreover have "run initial (pre @ CreateServerRejected e # post) = run ?failed post"
    by (simp add: run_append)
  moreover have "length (promises ?st) \<le> length (promises (run ?failed post))"
    using promises_grow_step [of ?st "CreateServerRejected e"] promises_grow [of ?failed post]
    by simp
  ultimately show ?thesis
    using st by (simp add: stalled_def)
qed

theorem failed_creation_stalls_callers_witness:
  "0 < creationsInFlight (run initial twoCalls)
   \<and> promises (run initial (twoCalls @ CreateServerRejected (BundlerError ''port in use'')
                                  # [Call, CreateServerFulfilled 7, Call]))
       = [Pending, Pending, Pending, Pending]"
proof -
  have h: "0 < creationsInFlight (run initial twoCalls)"
    by (simp add: twoCalls_def initial_def getOrInitialize_def)
  from failed_creation_stalls_callers
    [OF h, of "BundlerError ''port in use''" "[Call, CreateServerFulfilled 7, Call]"]
  show ?thesis using h
    by (simp add: twoCalls_def initial_def getOrInitialize_def)
qed

subsection \<open>Production build\<close>

lemma fs_rm_Inr:
  assumes "fs_rm p fs = Inr fs'"
  shows "fs' = filter (\<lambda>ent. \<not> prefix p (fst ent)) fs" and "\<not> fs_exists fs' p"
proof -
  from assms show eq: "fs' = filter (\<lambda>ent. \<not> prefix p (fst ent)) fs"
    by (simp add: fs_rm_def split: if_splits)
  show "\<not> fs_exists fs' p"
    unfolding eq fs_exists_def by auto
qed

lemma fs_rm_Inl: "fs_rm p fs = Inl e \<Longrightarrow> \<not> fs_exists fs p"
  by (simp add: fs_rm_def split: if_splits)

lemma fs_rm_exists:
  "fs_exists fs p \<Longrightarrow> fs_rm p fs = Inr (filter (\<lambda>ent. \<not> prefix p (fst ent)) fs)"
  by (simp add: fs_rm_def)

lemma fs_rename_same: "fs_rename src src fs = Inr fs1 \<Longrightarrow> fs1 = fs \<and> fs_exists fs src"
  by (simp add: fs_rename_def split: if_splits)

lemma fs_rename_moved:
  assumes ren: "fs_rename src dst fs = Inr fs1" and neq: "src \<noteq> dst"
  shows "fs_exists fs1 dst" and "\<forall>ent \<in> set fs1. \<not> prefix src (fst ent)"
proof -
  from ren neq have src: "fs_exists fs src"
    and inside: "\<not> prefix src dst"
    and empty: "\<not> list_ex (\<lambda>ent. strict_prefix dst (fst ent)) fs"
    and fs1: "fs1 = map (reroot src dst) (filter (\<lambda>ent. fst ent \<noteq> dst) fs)"
    by (simp_all add: fs_rename_def split: if_splits)
  from src obtain n where n: "(src, n) \<in> set fs"
    by (auto simp: fs_exists_def)
  with neq have "(src, n) \<in> set (filter (\<lambda>ent. fst ent \<noteq> dst) fs)"
    by simp
  then have "reroot src dst (src, n) \<in> set fs1"
    unfolding fs1 by (simp only: set_map) (rule imageI)
  then have "(dst, n) \<in> set fs1"
    by (simp add: reroot_def)
  then show "fs_exists fs1 dst"
    by (force simp: fs_exists_def)
  have below: "\<not> strict_prefix dst src"
    using empty n by (auto simp: list_ex_iff)
  show "\<forall>ent \<in> set fs1. \<not> prefix src (fst ent)"
  proof
    fix ent assume "ent \<in> set fs1"
    then obtain old where old: "old \<in> set fs" and ent: "ent = reroot src dst old"
      unfolding fs1 by auto
    show "\<not> prefix src (fst ent)"
    proof (cases "prefix src (fst old)")
      case True
      then have moved: "fst ent = dst @ drop (length src) (fst old)"
        by (simp add: ent reroot_def)
      show ?thesis
      proof
        assume "prefix src (fst ent)"
        then have "prefix src dst \<or> (\<exists>us. src = dst @ us \<and> prefix us (drop (length src) (fst old)))"
          by (simp add: moved prefix_append)
        with inside obtain us where us: "src = dst @ us"
          by blast
        with neq have "us \<noteq> []" by auto
        with us have "strict_prefix dst src"
          by (simp add: strict_prefix_def)
        with below show False by simp
      qed
    next
      case False
      then show ?thesis by (simp add: ent reroot_def)
    qed
  qed
qed

lemma fs_rename_exists: "fs_rename src dst fs = Inr fs1 \<Longrightarrow> fs_exists fs1 dst"
  using fs_rename_same [of src fs fs1] fs_rename_moved(1) [of src dst fs fs1]
  by (cases "src = dst") simp_all

text \<open>
  Claim C2. Whenever the initial rename of the output directory has succeeded, the
  temporary build directory does not exist in the file system that \<open>productionBuild\<close>
  leaves behind, whether it returns or throws and whatever the bundler did: success, the
  empty-entry error and a bundler failure all pass through the \<open>finally\<close> block.
\<close>

theorem productionBuild_removes_tempDir:
  assumes "fs_rename (output dir) (buildTempDir uc) fs = Inr fs1"
  shows "\<not> fs_exists (snd (productionBuild viteBuild uc dir fs)) (buildTempDir uc)"
proof -
  obtain outcome fs2
    where body: "tryBlock viteBuild uc (buildTempDir uc) (output dir) fs1 = (outcome, fs2)"
    by (cases "tryBlock viteBuild uc (buildTempDir uc) (output dir) fs1")
  show ?thesis
  proof (cases "fs_rm (buildTempDir uc) fs2")
    case (Inl e)
    with assms body have "snd (productionBuild viteBuild uc dir fs) = fs2"
      by (simp add: productionBuild_def)
    with fs_rm_Inl [OF Inl] show ?thesis by simp
  next
    case (Inr fs3)
    with assms body have "snd (productionBuild viteBuild uc dir fs) = fs3"
      by (simp add: productionBuild_def)
    with fs_rm_Inr(2) [OF Inr] show ?thesis by simp
  qed
qed

theorem productionBuild_removes_tempDir_witness:
  "productionBuild bundlerWrites exConfig exDir site
     = (Inr (), [([''site''], Dir), ([''site'', ''_site''], Dir),
                 ([''site'', ''_site'', ''index.html''], File ''bundled'')])
   \<and> productionBuild bundlerFails exConfig exDir site
     = (Inl (BundlerError ''parse error''), [([''site''], Dir)])
   \<and> \<not> fs_exists (snd (productionBuild bundlerWrites exConfig exDir site))
         [''site'', ''.eleventy-temp-build'']
   \<and> \<not> fs_exists (snd (productionBuild bundlerFails exConfig exDir site))
         [''site'', ''.eleventy-temp-build'']"
proof -
  have ren: "fs_rename (output exDir) (buildTempDir exConfig) site = Inr siteMoved"
    by code_simp
  have ok: "productionBuild bundlerWrites exConfig exDir site
     = (Inr (), [([''site''], Dir), ([''site'', ''_site''], Dir),
                 ([''site'', ''_site'', ''index.html''], File ''bundled'')])"
    by code_simp
  have bad: "productionBuild bundlerFails exConfig exDir site
     = (Inl (BundlerError ''parse error''), [([''site''], Dir)])"
    by code_simp
  from productionBuild_removes_tempDir [OF ren, of bundlerWrites]
    productionBuild_removes_tempDir [OF ren, of bundlerFails] ok bad
  show ?thesis by (simp add: exConfig_def)
qed

text \<open>
  Claim C3. If, after the rename has succeeded, no \<open>*.html\<close> file is found below the
  temporary build directory, \<open>productionBuild\<close> throws the error "Output directory empty!"
  to its caller, the cleanup having run: the file system left behind has no entry at or
  below the temporary directory and none at or below the output directory, whose former
  content was moved and then removed.
\<close>

theorem productionBuild_empty_output:
  assumes ren: "fs_rename (output dir) (buildTempDir uc) fs = Inr fs1"
    and none: "globHtml (buildTempDir uc) fs1 = []"
  shows "productionBuild viteBuild uc dir fs
           = (Inl OutputDirectoryEmpty, filter (\<lambda>ent. \<not> prefix (buildTempDir uc) (fst ent)) fs1)
       \<and> (\<forall>ent \<in> set (snd (productionBuild viteBuild uc dir fs)).
            \<not> prefix (output dir) (fst ent) \<and> \<not> prefix (buildTempDir uc) (fst ent))"
proof -
  let ?left = "filter (\<lambda>ent. \<not> prefix (buildTempDir uc) (fst ent)) fs1"
  have body: "tryBlock viteBuild uc (buildTempDir uc) (output dir) fs1
                = (Inl OutputDirectoryEmpty, fs1)"
    using none by (simp add: tryBlock_def)
  have "fs_rm (buildTempDir uc) fs1 = Inr ?left"
    using fs_rename_exists [OF ren] by (rule fs_rm_exists)
  with ren body have result: "productionBuild viteBuild uc dir fs = (Inl OutputDirectoryEmpty, ?left)"
    by (simp add: productionBuild_def)
  have "\<forall>ent \<in> set ?left. \<not> prefix (output dir) (fst ent)"
  proof (cases "output dir = buildTempDir uc")
    case True
    then show ?thesis by simp
  next
    case False
    from fs_rename_moved(2) [OF ren False] show ?thesis by simp
  qed
  with result show ?thesis by simp
qed

theorem productionBuild_empty_output_witness:
  "productionBuild bundlerWrites exConfig exDir assetsOnly
     = (Inl OutputDirectoryEmpty, [([''site''], Dir)])"
proof -
  have ren: "fs_rename (output exDir) (buildTempDir exConfig) assetsOnly = Inr assetsMoved"
    by code_simp
  have none: "globHtml (buildTempDir exConfig) assetsMoved = []"
    by code_simp
  have left: "filter (\<lambda>ent. \<not> prefix (buildTempDir exConfig) (fst ent)) assetsMoved
                = [([''site''], Dir)]"
    by code_simp
  from productionBuild_empty_output [OF ren none, of bundlerWrites] left
  show ?thesis by simp
qed


end
